theory Spec2Isabelle
  imports Complex_Main "HOL-Library.Word" "HOL-Library.Multiset"
begin

section \<open>Data model\<close>

text \<open>
  The repository is three C++ files: \<^verbatim>\<open>Inventory.cpp\<close>, \<^verbatim>\<open>Player.cpp\<close> and a driver.
  The headers are not part of the sources, so the declarations of \<^verbatim>\<open>Item\<close>, of the
  enumeration of item categories and of the data members are read off their uses.

  Weights are \<^verbatim>\<open>float\<close>s in the code. The embedding keeps the weight type abstract:
  the definitions only need a zero and an addition (\<^verbatim>\<open>weight_(0)\<close>, \<^verbatim>\<open>weight_ += ...\<close>),
  and the theorems on the operations assume no law of that addition, so they hold of an
  addition that rounds and is not associative. \<^verbatim>\<open>size_t\<close> is a 64-bit word, so
  \<^verbatim>\<open>item_count_++\<close> wraps.
\<close>

type_synonym size_t = "64 word"

text \<open>
  Modelled from the spec: the enumeration of item categories is declared in the missing
  header \<^verbatim>\<open>Inventory.hpp\<close>. The sources use the enumerators \<^verbatim>\<open>NONE\<close>, \<^verbatim>\<open>WEAPON\<close>,
  \<^verbatim>\<open>ARMOR\<close> and \<^verbatim>\<open>ACCESSORY\<close>; the code under study only ever compares with \<^verbatim>\<open>NONE\<close>.
\<close>

datatype ItemType = NONE | WEAPON | ARMOR | ACCESSORY

text \<open>
  Modelled from the spec: \<^verbatim>\<open>Item\<close> is declared in the missing header; it is a plain value
  with a name, a weight (\<^verbatim>\<open>weight_\<close>) and a category (\<^verbatim>\<open>type_\<close>). The fields carry the
  prefix \<^verbatim>\<open>item_\<close> here, since \<^verbatim>\<open>weight_\<close> and \<^verbatim>\<open>name_\<close> are also members of
  \<^verbatim>\<open>Inventory\<close> and \<^verbatim>\<open>Player\<close>. A name of the logic cannot end in an underscore, so
  every data member is written without its final underscore: \<^verbatim>\<open>weight_\<close> is \<open>weight\<close>.
\<close>

record 'w Item =
  item_name :: string
  item_weight :: 'w
  item_type :: ItemType

text \<open>
  The data members of \<^verbatim>\<open>Inventory\<close>. \<^verbatim>\<open>equipped_\<close> is an \<^verbatim>\<open>Item*\<close>: an address in the
  free store, or \<^verbatim>\<open>nullptr\<close> (\<open>None\<close>).
\<close>

record 'w Inventory =
  inventory_grid :: "'w Item list list"
  equipped :: "nat option"
  weight :: 'w
  item_count :: size_t


subsection \<open>The free store\<close>

text \<open>
  Items allocated with \<^verbatim>\<open>new\<close> live in the free store: the cell at an address holds the
  item, or \<open>None\<close> once it has been deleted. \<^verbatim>\<open>new\<close> takes the next address, which was
  never handed out before.
\<close>

type_synonym 'w heap = "'w Item option list"

definition deref :: "'w heap \<Rightarrow> nat \<Rightarrow> 'w Item option" where
  "deref h a = (if a < length h then h ! a else None)"

definition new_Item :: "'w Item \<Rightarrow> 'w heap \<Rightarrow> nat \<times> 'w heap" where
  "new_Item x h = (length h, h @ [Some x])"

text \<open>
  \<^verbatim>\<open>delete p\<close>: nothing for \<^verbatim>\<open>nullptr\<close>, frees a live item, and is undefined behaviour
  (\<open>None\<close>) for an address that holds no live item.
\<close>

definition delete_Item :: "nat option \<Rightarrow> 'w heap \<Rightarrow> 'w heap option" where
  "delete_Item p h =
     (case p of
        None \<Rightarrow> Some h
      | Some a \<Rightarrow> (case deref h a of None \<Rightarrow> None | Some x \<Rightarrow> Some (h[a := None])))"

text \<open>
  \<^verbatim>\<open>(rhs.equipped_) ? new Item(*rhs.equipped_) : nullptr\<close>, the expression of both copy
  operations; reading through a dangling pointer is undefined behaviour.
\<close>

definition duplicate :: "nat option \<Rightarrow> 'w heap \<Rightarrow> (nat option \<times> 'w heap) option" where
  "duplicate p h =
     (case p of
        None \<Rightarrow> Some (None, h)
      | Some a \<Rightarrow>
          (case deref h a of
             None \<Rightarrow> None
           | Some x \<Rightarrow> (let (b, h') = new_Item x h in Some (Some b, h'))))"

subsection \<open>Objects and program states\<close>

text \<open>
  The assignment operators compare the addresses of two objects (\<^verbatim>\<open>this != &rhs\<close>), so
  objects have an identity: \<open>Obj n\<close> is an \<^verbatim>\<open>Inventory\<close> object of its own, \<open>Member p\<close>
  is the member \<^verbatim>\<open>inventory_\<close> of the \<^verbatim>\<open>Player\<close> object \<open>p\<close>. A \<^verbatim>\<open>Player\<close> object \<open>p\<close> is
  stored as its two members: \<open>names s p\<close> and \<open>inventories s (Member p)\<close>.
\<close>

datatype ref = Obj nat | Member nat

record 'w state =
  free_store :: "'w heap"
  inventories :: "ref \<rightharpoonup> 'w Inventory"
  names :: "nat \<rightharpoonup> string"


text \<open>
  An operation ends by returning (\<open>Inr\<close>), by throwing \<^verbatim>\<open>std::out_of_range\<close> in the state
  reached at the \<^verbatim>\<open>throw\<close>, or it has undefined behaviour: a method called on an object that
  does not exist, an object initialised from itself, \<^verbatim>\<open>delete\<close> of or a read through a
  pointer to no live item.
\<close>

datatype 'w error = out_of_range "'w state" | undefined_behaviour

section \<open>Inventory\<close>

text \<open>
  The two nested loops of the constructor, over the rows and over the items of a row,
  starting from \<^verbatim>\<open>weight_(0), item_count_(0)\<close>.
\<close>

definition tally :: "'w::{zero,plus} Item list list \<Rightarrow> 'w \<times> size_t" where
  "tally items =
     fold (\<lambda>row acc.
             fold (\<lambda>item (w, n).
                     if item_type item \<noteq> NONE then (w + item_weight item, n + 1)
                     else (w, n))
               row acc)
       items (0, 0)"

definition Inventory_ctor ::
  "ref \<Rightarrow> 'w::{zero,plus} Item list list \<Rightarrow> nat option \<Rightarrow> 'w state \<Rightarrow> 'w state" where
  "Inventory_ctor this items equipped_arg s =
     (let (w, n) = tally items
      in s\<lparr>inventories := (inventories s)(this \<mapsto>
             \<lparr>inventory_grid = items, equipped = equipped_arg, weight = w, item_count = n\<rparr>)\<rparr>)"

definition Inventory_getEquipped :: "ref \<Rightarrow> 'w state \<Rightarrow> 'w error + nat option" where
  "Inventory_getEquipped this s =
     (case inventories s this of
        None \<Rightarrow> Inl undefined_behaviour
      | Some v \<Rightarrow> Inr (equipped v))"

definition Inventory_equip :: "nat option \<Rightarrow> ref \<Rightarrow> 'w state \<Rightarrow> 'w error + 'w state" where
  "Inventory_equip itemToEquip this s =
     (case inventories s this of
        None \<Rightarrow> Inl undefined_behaviour
      | Some v \<Rightarrow> Inr (s\<lparr>inventories := (inventories s)(this \<mapsto> v\<lparr>equipped := itemToEquip\<rparr>)\<rparr>))"

definition Inventory_discardEquipped :: "ref \<Rightarrow> 'w state \<Rightarrow> 'w error + 'w state" where
  "Inventory_discardEquipped this s =
     (case inventories s this of
        None \<Rightarrow> Inl undefined_behaviour
      | Some v \<Rightarrow>
          (case equipped v of
             None \<Rightarrow> Inr s
           | Some a \<Rightarrow>
               (case delete_Item (Some a) (free_store s) of
                  None \<Rightarrow> Inl undefined_behaviour
                | Some h \<Rightarrow>
                    Inr (s\<lparr>free_store := h,
                           inventories := (inventories s)(this \<mapsto> v\<lparr>equipped := None\<rparr>)\<rparr>))))"

definition Inventory_getItems :: "ref \<Rightarrow> 'w state \<Rightarrow> 'w error + 'w Item list list" where
  "Inventory_getItems this s =
     (case inventories s this of
        None \<Rightarrow> Inl undefined_behaviour
      | Some v \<Rightarrow> Inr (inventory_grid v))"

definition Inventory_getWeight :: "ref \<Rightarrow> 'w state \<Rightarrow> 'w error + 'w" where
  "Inventory_getWeight this s =
     (case inventories s this of
        None \<Rightarrow> Inl undefined_behaviour
      | Some v \<Rightarrow> Inr (weight v))"

definition Inventory_getCount :: "ref \<Rightarrow> 'w state \<Rightarrow> 'w error + size_t" where
  "Inventory_getCount this s =
     (case inventories s this of
        None \<Rightarrow> Inl undefined_behaviour
      | Some v \<Rightarrow> Inr (item_count v))"

text \<open>
  The bounds test \<^verbatim>\<open>row >= inventory_grid_.size() || col >= inventory_grid_[row].size()\<close>
  of \<^verbatim>\<open>at\<close> and \<^verbatim>\<open>store\<close>; \<^verbatim>\<open>||\<close> does not evaluate its right operand when the left one
  holds.
\<close>

definition out_of_bounds :: "'w Item list list \<Rightarrow> size_t \<Rightarrow> size_t \<Rightarrow> bool" where
  "out_of_bounds grid row col =
     (if unat row \<ge> length grid then True else unat col \<ge> length (grid ! unat row))"

definition Inventory_at :: "size_t \<Rightarrow> size_t \<Rightarrow> ref \<Rightarrow> 'w state \<Rightarrow> 'w error + 'w Item" where
  "Inventory_at row col this s =
     (case inventories s this of
        None \<Rightarrow> Inl undefined_behaviour
      | Some v \<Rightarrow>
          if out_of_bounds (inventory_grid v) row col then Inl (out_of_range s)
          else Inr (inventory_grid v ! unat row ! unat col))"

definition Inventory_store ::
  "size_t \<Rightarrow> size_t \<Rightarrow> 'w::plus Item \<Rightarrow> ref \<Rightarrow> 'w state \<Rightarrow> 'w error + bool \<times> 'w state" where
  "Inventory_store row col pickup this s =
     (case inventories s this of
        None \<Rightarrow> Inl undefined_behaviour
      | Some v \<Rightarrow>
          if out_of_bounds (inventory_grid v) row col then Inl (out_of_range s)
          else if item_type (inventory_grid v ! unat row ! unat col) \<noteq> NONE
          then Inr (False, s)
          else Inr (True,
            s\<lparr>inventories := (inventories s)(this \<mapsto>
                v\<lparr>inventory_grid :=
                     (inventory_grid v)[unat row := (inventory_grid v ! unat row)[unat col := pickup]],
                   weight := weight v + item_weight pickup,
                   item_count := item_count v + 1\<rparr>)\<rparr>))"

text \<open>
  The copy constructor. \<open>this\<close> is the storage of the new object; an object initialised
  from itself reads members that do not exist yet.
\<close>

definition Inventory_copy_ctor :: "ref \<Rightarrow> ref \<Rightarrow> 'w state \<Rightarrow> 'w error + 'w state" where
  "Inventory_copy_ctor this rhs s =
     (if this = rhs then Inl undefined_behaviour
      else case inventories s rhs of
        None \<Rightarrow> Inl undefined_behaviour
      | Some r \<Rightarrow>
          (case duplicate (equipped r) (free_store s) of
             None \<Rightarrow> Inl undefined_behaviour
           | Some (p, h) \<Rightarrow>
               Inr (s\<lparr>free_store := h,
                      inventories := (inventories s)(this \<mapsto>
                        \<lparr>inventory_grid = inventory_grid r, equipped = p,
                         weight = weight r, item_count = item_count r\<rparr>)\<rparr>)))"

text \<open>
  The move constructor. Moving a \<^verbatim>\<open>std::vector\<close> leaves the source vector empty; the code
  itself resets the other three members of \<^verbatim>\<open>rhs\<close>.
\<close>

definition Inventory_move_ctor ::
  "ref \<Rightarrow> ref \<Rightarrow> 'w::zero state \<Rightarrow> 'w error + 'w state" where
  "Inventory_move_ctor this rhs s =
     (if this = rhs then Inl undefined_behaviour
      else case inventories s rhs of
        None \<Rightarrow> Inl undefined_behaviour
      | Some r \<Rightarrow>
          Inr (s\<lparr>inventories := (inventories s)
                 (this \<mapsto> \<lparr>inventory_grid = inventory_grid r, equipped = equipped r,
                           weight = weight r, item_count = item_count r\<rparr>,
                  rhs \<mapsto> r\<lparr>inventory_grid := [], equipped := None,
                            weight := 0, item_count := 0\<rparr>)\<rparr>))"

definition Inventory_copy_assign :: "ref \<Rightarrow> ref \<Rightarrow> 'w state \<Rightarrow> 'w error + 'w state" where
  "Inventory_copy_assign this rhs s =
     (case inventories s this of
        None \<Rightarrow> Inl undefined_behaviour
      | Some t \<Rightarrow>
          (case inventories s rhs of
             None \<Rightarrow> Inl undefined_behaviour
           | Some r \<Rightarrow>
               if this \<noteq> rhs then
                 (case delete_Item (equipped t) (free_store s) of
                    None \<Rightarrow> Inl undefined_behaviour
                  | Some h \<Rightarrow>
                      (case duplicate (equipped r) h of
                         None \<Rightarrow> Inl undefined_behaviour
                       | Some (p, h') \<Rightarrow>
                           Inr (s\<lparr>free_store := h',
                                  inventories := (inventories s)(this \<mapsto>
                                    t\<lparr>inventory_grid := inventory_grid r,
                                      weight := weight r,
                                      item_count := item_count r,
                                      equipped := p\<rparr>)\<rparr>)))
               else Inr s))"

definition Inventory_move_assign ::
  "ref \<Rightarrow> ref \<Rightarrow> 'w::zero state \<Rightarrow> 'w error + 'w state" where
  "Inventory_move_assign this rhs s =
     (case inventories s this of
        None \<Rightarrow> Inl undefined_behaviour
      | Some t \<Rightarrow>
          (case inventories s rhs of
             None \<Rightarrow> Inl undefined_behaviour
           | Some r \<Rightarrow>
               if this \<noteq> rhs then
                 (case delete_Item (equipped t) (free_store s) of
                    None \<Rightarrow> Inl undefined_behaviour
                  | Some h \<Rightarrow>
                      Inr (s\<lparr>free_store := h,
                             inventories := (inventories s)
                               (this \<mapsto> t\<lparr>inventory_grid := inventory_grid r,
                                          equipped := equipped r,
                                          weight := weight r,
                                          item_count := item_count r\<rparr>,
                                rhs \<mapsto> r\<lparr>inventory_grid := [], equipped := None,
                                          weight := 0, item_count := 0\<rparr>)\<rparr>))
               else Inr s))"

section \<open>Player\<close>



section \<open>Aggregates of a grid\<close>

text \<open>
  A cell is occupied when its category is not \<^verbatim>\<open>NONE\<close>. \<open>cells v\<close> lists the occupied
  cells of the grid of \<open>v\<close>, row by row; the equipped item is not a cell.

  The code sums weights with \<^verbatim>\<open>+=\<close> from \<^verbatim>\<open>0\<close>, one weight after the other:
  \<open>accumulate ws\<close> is the result for the weights \<open>ws\<close> in that order. No law of the
  addition is assumed, so the order is part of a sum. \<open>aggregates_ok\<close> is the invariant:
  the cached weight is a sum of the weights of the occupied cells, each cell taken once,
  in some order; the cached count is the number of the occupied cells (as a \<^verbatim>\<open>size_t\<close>).
\<close>

definition occupied :: "'w Item \<Rightarrow> bool" where
  "occupied item \<longleftrightarrow> item_type item \<noteq> NONE"

definition cells :: "'w Inventory \<Rightarrow> 'w Item list" where
  "cells v = filter occupied (concat (inventory_grid v))"

definition accumulate :: "'w::{zero,plus} list \<Rightarrow> 'w" where
  "accumulate ws = foldl (+) 0 ws"

definition aggregates_ok :: "'w::{zero,plus} Inventory \<Rightarrow> bool" where
  "aggregates_ok v \<longleftrightarrow>
     (\<exists>ws. mset ws = mset (map item_weight (cells v)) \<and> weight v = accumulate ws) \<and>
     item_count v = of_nat (length (cells v))"

section \<open>Test data\<close>

text \<open>The items of the driver \<^verbatim>\<open>main.cpp\<close>, and an item of category \<^verbatim>\<open>NONE\<close>.\<close>

definition sword :: "real Item" where
  "sword = \<lparr>item_name = ''Excalibur'', item_weight = 10.5, item_type = WEAPON\<rparr>"

definition shield :: "real Item" where
  "shield = \<lparr>item_name = ''Shield'', item_weight = 5, item_type = ARMOR\<rparr>"

definition potion :: "real Item" where
  "potion = \<lparr>item_name = ''Health Potion'', item_weight = 0.5, item_type = ACCESSORY\<rparr>"

definition hole :: "real Item" where
  "hole = \<lparr>item_name = [], item_weight = 0, item_type = NONE\<rparr>"

text \<open>
  A state with one inventory, \<open>Obj 0\<close>: a jagged grid with rows of two and one cells, the
  shield equipped.
\<close>

definition chest :: "real Inventory" where
  "chest = \<lparr>inventory_grid = [[sword, hole], [sword]], equipped = Some 0,
            weight = 21, item_count = 2\<rparr>"

definition demo :: "real state" where
  "demo = \<lparr>free_store = [Some shield], inventories = [Obj 0 \<mapsto> chest], names = Map.empty\<rparr>"

section \<open>Client programs\<close>

text \<open>
  What a client can reach with the public operations of \<^verbatim>\<open>Inventory\<close>: a program is a list
  of calls, run from the state with no object and an empty free store. \<open>New_Item\<close> is the
  client's own \<^verbatim>\<open>new Item(...)\<close>, which it needs to have something to equip. A run stops
  at the first call that throws or has undefined behaviour; the exception of \<^verbatim>\<open>store\<close>
  carries the state of the call, so catching it reaches no further state.
\<close>

datatype 'w call =
    Construct ref "'w Item list list" "nat option"
  | Store size_t size_t "'w Item" ref
  | Equip "nat option" ref
  | DiscardEquipped ref
  | Copy_construct ref ref
  | Move_construct ref ref
  | Copy_assign ref ref
  | Move_assign ref ref
  | New_Item "'w Item"

fun perform :: "'w::{zero,plus} call \<Rightarrow> 'w state \<Rightarrow> 'w error + 'w state" where
  "perform (Construct this items equipped_arg) s = Inr (Inventory_ctor this items equipped_arg s)"
| "perform (Store row col pickup this) s =
     (case Inventory_store row col pickup this s of
        Inl e \<Rightarrow> Inl e
      | Inr (stored, s') \<Rightarrow> Inr s')"
| "perform (Equip itemToEquip this) s = Inventory_equip itemToEquip this s"
| "perform (DiscardEquipped this) s = Inventory_discardEquipped this s"
| "perform (Copy_construct this rhs) s = Inventory_copy_ctor this rhs s"
| "perform (Move_construct this rhs) s = Inventory_move_ctor this rhs s"
| "perform (Copy_assign this rhs) s = Inventory_copy_assign this rhs s"
| "perform (Move_assign this rhs) s = Inventory_move_assign this rhs s"
| "perform (New_Item x) s = Inr (s\<lparr>free_store := snd (new_Item x (free_store s))\<rparr>)"

fun run :: "'w::{zero,plus} call list \<Rightarrow> 'w state \<Rightarrow> 'w error + 'w state" where
  "run [] s = Inr s"
| "run (c # cs) s = (case perform c s of Inl e \<Rightarrow> Inl e | Inr s' \<Rightarrow> run cs s')"

definition initial :: "'w state" where
  "initial = \<lparr>free_store = [], inventories = Map.empty, names = Map.empty\<rparr>"

text \<open>A call that, if it is a \<^verbatim>\<open>store\<close>, stores an item of a category other than \<^verbatim>\<open>NONE\<close>.\<close>

fun stores_occupied :: "'w call \<Rightarrow> bool" where
  "stores_occupied (Store row col pickup this) = occupied pickup"
| "stores_occupied c = True"

text \<open>
  A client program: the shield is allocated and equipped, a potion is stored into the empty
  cell, the inventory is copied, then moved from. And the inventory that \<open>Obj 2\<close> is after
  the program.
\<close>

definition session :: "real call list" where
  "session =
     [New_Item shield,
      Construct (Obj 0) [[sword, hole], [sword]] (Some 0),
      Store 0 1 potion (Obj 0),
      Copy_construct (Obj 1) (Obj 0),
      Move_construct (Obj 2) (Obj 0)]"

definition treasure :: "real Inventory" where
  "treasure = \<lparr>inventory_grid = [[sword, potion], [sword]], equipped = Some 0,
               weight = 21.5, item_count = 3\<rparr>"

section \<open>Observations of the equipped item and of a moved-from inventory\<close>

text \<open>
  What a client sees through the pointer that \<^verbatim>\<open>getEquipped\<close> returns:
  \<^verbatim>\<open>*inv.getEquipped()\<close> read, and \<^verbatim>\<open>*inv.getEquipped() = x\<close> written. Both are undefined
  behaviour through \<^verbatim>\<open>nullptr\<close> or a pointer to no live item; the read gives \<open>None\<close>
  then.
\<close>

definition equipped_item :: "ref \<Rightarrow> 'w state \<Rightarrow> 'w Item option" where
  "equipped_item this s =
     (case inventories s this of
        None \<Rightarrow> None
      | Some v \<Rightarrow> (case equipped v of None \<Rightarrow> None | Some a \<Rightarrow> deref (free_store s) a))"

definition assign_equipped :: "'w Item \<Rightarrow> ref \<Rightarrow> 'w state \<Rightarrow> 'w error + 'w state" where
  "assign_equipped x this s =
     (case inventories s this of
        None \<Rightarrow> Inl undefined_behaviour
      | Some v \<Rightarrow>
          (case equipped v of
             None \<Rightarrow> Inl undefined_behaviour
           | Some a \<Rightarrow>
               (case deref (free_store s) a of
                  None \<Rightarrow> Inl undefined_behaviour
                | Some y \<Rightarrow> Inr (s\<lparr>free_store := (free_store s)[a := Some x]\<rparr>))))"

text \<open>
  The state of an inventory that has been moved from: an empty grid, no equipped item,
  weight 0 and count 0.
\<close>

definition moved_from :: "'w::zero Inventory" where
  "moved_from = \<lparr>inventory_grid = [], equipped = None, weight = 0, item_count = 0\<rparr>"

text \<open>
  A second inventory \<open>Obj 1\<close>, with nothing equipped, beside the one of \<open>demo\<close>; and a
  player \<open>0\<close> named Knight (as in the driver) who owns the chest, beside a player \<open>1\<close>.
\<close>

definition pouch :: "real Inventory" where
  "pouch = \<lparr>inventory_grid = [[potion]], equipped = None, weight = 0.5, item_count = 1\<rparr>"

definition pair :: "real state" where
  "pair = \<lparr>free_store = [Some shield],
           inventories = [Obj 0 \<mapsto> chest, Obj 1 \<mapsto> pouch],
           names = Map.empty\<rparr>"


text \<open>
  The same inventories and players when the second one has a helmet equipped (the helmet
  of the driver), at address 1 of the free store.
\<close>

definition helmet :: "real Item" where
  "helmet = \<lparr>item_name = ''Helmet'', item_weight = 3.2, item_type = ARMOR\<rparr>"

definition satchel :: "real Inventory" where
  "satchel = \<lparr>inventory_grid = [[potion]], equipped = Some 1, weight = 0.5, item_count = 1\<rparr>"

definition rivals :: "real state" where
  "rivals = \<lparr>free_store = [Some shield, Some helmet],
             inventories = [Obj 0 \<mapsto> chest, Obj 1 \<mapsto> satchel],
             names = Map.empty\<rparr>"


section \<open>Lemmas on grids\<close>

lemma tally_row:
  fixes w :: "'w::{zero,plus}" and n :: size_t
  shows "fold (\<lambda>item (w, n).
                 if item_type item \<noteq> NONE then (w + item_weight item, n + 1) else (w, n))
           row (w, n) =
         (foldl (+) w (map item_weight (filter occupied row)),
          n + of_nat (length (filter occupied row)))"
  by (induction row arbitrary: w n) (simp_all add: occupied_def add.assoc)

lemma tally_rows:
  fixes w :: "'w::{zero,plus}" and n :: size_t
  shows "fold (\<lambda>row acc.
             fold (\<lambda>item (w, n).
                     if item_type item \<noteq> NONE then (w + item_weight item, n + 1)
                     else (w, n))
               row acc) items (w, n) =
         (foldl (+) w (map item_weight (filter occupied (concat items))),
          n + of_nat (length (filter occupied (concat items))))"
  by (induction items arbitrary: w n) (simp_all add: tally_row add.assoc)

lemma tally_eq:
  fixes items :: "'w::{zero,plus} Item list list"
  shows "tally items =
     (accumulate (map item_weight (filter occupied (concat items))),
      of_nat (length (filter occupied (concat items))))"
  by (simp add: tally_def tally_rows accumulate_def)

text \<open>Writing one cell of the grid writes one position of the row-by-row list of cells.\<close>

lemma grid_put:
  assumes "r < length g" "c < length (g ! r)"
  shows "concat (g[r := (g ! r)[c := p]]) = (concat g)[length (concat (take r g)) + c := p]
       \<and> length (concat (take r g)) + c < length (concat g)
       \<and> concat g ! (length (concat (take r g)) + c) = g ! r ! c"
proof -
  have g: "g = take r g @ g ! r # drop (Suc r) g"
    using assms(1) by (rule id_take_nth_drop)
  have u: "g[r := (g ! r)[c := p]] = take r g @ (g ! r)[c := p] # drop (Suc r) g"
    using assms(1) by (rule upd_conv_take_nth_drop)
  have "concat g = concat (take r g) @ g ! r @ concat (drop (Suc r) g)"
    by (subst g) simp
  then show ?thesis using assms(2)
    by (simp add: u list_update_append nth_append)
qed

lemma filter_put:
  assumes "k < length xs" "\<not> occupied (xs ! k)"
  shows "filter occupied xs = filter occupied (take k xs) @ filter occupied (drop (Suc k) xs)"
    and "occupied p \<Longrightarrow> filter occupied (xs[k := p]) =
           filter occupied (take k xs) @ p # filter occupied (drop (Suc k) xs)"
    and "\<not> occupied p \<Longrightarrow> filter occupied (xs[k := p]) = filter occupied xs"
proof -
  have xs: "xs = take k xs @ xs ! k # drop (Suc k) xs"
    using assms(1) by (rule id_take_nth_drop)
  have u: "xs[k := p] = take k xs @ p # drop (Suc k) xs"
    using assms(1) by (rule upd_conv_take_nth_drop)
  show split: "filter occupied xs = filter occupied (take k xs) @ filter occupied (drop (Suc k) xs)"
    using assms(2) by (subst xs) simp
  show "occupied p \<Longrightarrow> filter occupied (xs[k := p]) =
           filter occupied (take k xs) @ p # filter occupied (drop (Suc k) xs)"
    by (simp add: u)
  show "\<not> occupied p \<Longrightarrow> filter occupied (xs[k := p]) = filter occupied xs"
    by (simp add: u split)
qed

text \<open>
  The occupied cells after a write into an empty cell: one more when the item written is
  occupied, the same when it is not.
\<close>

lemma cells_put:
  assumes "r < length (inventory_grid v)" "c < length (inventory_grid v ! r)"
    and "item_type (inventory_grid v ! r ! c) = NONE"
  shows "\<not> occupied p \<Longrightarrow>
           cells (v\<lparr>inventory_grid := (inventory_grid v)[r := (inventory_grid v ! r)[c := p]]\<rparr>) = cells v"
    and "occupied p \<Longrightarrow> \<exists>before after. cells v = before @ after \<and>
           cells (v\<lparr>inventory_grid := (inventory_grid v)[r := (inventory_grid v ! r)[c := p]]\<rparr>) =
             before @ p # after"
proof -
  let ?g = "inventory_grid v"
  let ?k = "length (concat (take r ?g)) + c"
  from grid_put [OF assms(1,2)]
  have put: "concat (?g[r := (?g ! r)[c := p]]) = (concat ?g)[?k := p]"
    and k: "?k < length (concat ?g)" and at: "concat ?g ! ?k = ?g ! r ! c"
    by simp_all
  have empty: "\<not> occupied (concat ?g ! ?k)"
    using assms(3) by (simp add: at occupied_def)
  show "\<not> occupied p \<Longrightarrow> cells (v\<lparr>inventory_grid := ?g[r := (?g ! r)[c := p]]\<rparr>) = cells v"
    by (simp add: cells_def put filter_put(3) [OF k empty])
  show "occupied p \<Longrightarrow> \<exists>before after. cells v = before @ after \<and>
           cells (v\<lparr>inventory_grid := ?g[r := (?g ! r)[c := p]]\<rparr>) = before @ p # after"
    using filter_put(1,2) [OF k empty] by (auto simp: cells_def put)
qed

lemma cells_le: "length (cells v) \<le> length (concat (inventory_grid v))"
  by (simp add: cells_def)

section \<open>Bounds and failures of \<^verbatim>\<open>at\<close> and \<^verbatim>\<open>store\<close>\<close>

text \<open>
  C2. On an existing inventory, \<^verbatim>\<open>at(row, col)\<close> and \<^verbatim>\<open>store(row, col, item)\<close> throw
  \<^verbatim>\<open>std::out_of_range\<close> exactly when \<open>row\<close> is at least the number of rows or \<open>col\<close> is at
  least the length of row \<open>row\<close> (the bound of that row, so also for jagged grids). They
  fail in no other way, and the state at the throw is the state of the call: grid, weight,
  count and equipped item of the inventory are what they were.
\<close>

theorem out_of_range_iff_out_of_bounds:
  assumes "inventories s this = Some v"
  shows "(Inventory_at row col this s = Inl (out_of_range s)) =
           (length (inventory_grid v) \<le> unat row \<or>
            length (inventory_grid v ! unat row) \<le> unat col)
       \<and> (Inventory_store row col pickup this s = Inl (out_of_range s)) =
           (length (inventory_grid v) \<le> unat row \<or>
            length (inventory_grid v ! unat row) \<le> unat col)
       \<and> (\<forall>e. Inventory_at row col this s = Inl e \<longrightarrow> e = out_of_range s)
       \<and> (\<forall>e. Inventory_store row col pickup this s = Inl e \<longrightarrow> e = out_of_range s)"
  using assms by (auto simp: Inventory_at_def Inventory_store_def out_of_bounds_def)

theorem out_of_range_iff_out_of_bounds_witness:
  "inventories demo (Obj 0) = Some chest
   \<and> length (inventory_grid chest ! unat (1 :: size_t)) \<le> unat (1 :: size_t)
   \<and> Inventory_at 1 1 (Obj 0) demo = Inl (out_of_range demo)
   \<and> Inventory_store 1 1 potion (Obj 0) demo = Inl (out_of_range demo)"
proof -
  have v: "inventories demo (Obj 0) = Some chest"
    by (simp add: demo_def)
  have short: "length (inventory_grid chest ! unat (1 :: size_t)) \<le> unat (1 :: size_t)"
    by (simp add: chest_def)
  from out_of_range_iff_out_of_bounds [OF v, of 1 1 potion] short
  have "Inventory_at 1 1 (Obj 0) demo = Inl (out_of_range demo)"
    and "Inventory_store 1 1 potion (Obj 0) demo = Inl (out_of_range demo)"
    by blast+
  with v short show ?thesis by blast
qed

section \<open>Storing\<close>

text \<open>
  C3. On an existing inventory and an in-bounds cell of category \<^verbatim>\<open>NONE\<close>,
  \<^verbatim>\<open>store(row, col, item)\<close> returns true; the inventory afterwards has \<open>item\<close> in that
  cell, its weight increased by the weight of \<open>item\<close> and its count by one; the grid has the
  same shape and every other cell is unchanged, as are the equipped item, the free store
  and every other object.
\<close>

theorem store_into_empty_cell:
  assumes "inventories s this = Some v"
    and "unat row < length (inventory_grid v)"
    and "unat col < length (inventory_grid v ! unat row)"
    and "item_type (inventory_grid v ! unat row ! unat col) = NONE"
  shows "\<exists>v'. Inventory_store row col pickup this s =
                 Inr (True, s\<lparr>inventories := (inventories s)(this \<mapsto> v')\<rparr>)
          \<and> inventory_grid v' ! unat row ! unat col = pickup
          \<and> weight v' = weight v + item_weight pickup
          \<and> item_count v' = item_count v + 1
          \<and> equipped v' = equipped v
          \<and> length (inventory_grid v') = length (inventory_grid v)
          \<and> (\<forall>r. length (inventory_grid v' ! r) = length (inventory_grid v ! r))
          \<and> (\<forall>r c. (r, c) \<noteq> (unat row, unat col) \<longrightarrow>
                 inventory_grid v' ! r ! c = inventory_grid v ! r ! c)"
proof -
  let ?g = "inventory_grid v"
  let ?g' = "?g[unat row := (?g ! unat row)[unat col := pickup]]"
  let ?v' = "v\<lparr>inventory_grid := ?g', weight := weight v + item_weight pickup,
               item_count := item_count v + 1\<rparr>"
  have ret: "Inventory_store row col pickup this s =
          Inr (True, s\<lparr>inventories := (inventories s)(this \<mapsto> ?v')\<rparr>)"
    using assms by (simp add: Inventory_store_def out_of_bounds_def)
  have here: "?g' ! unat row ! unat col = pickup"
    using assms(2,3) by simp
  have shape: "length (?g' ! r) = length (?g ! r)" for r
    using assms(2) by (cases "r = unat row") simp_all
  have rest: "(r, c) \<noteq> (unat row, unat col) \<longrightarrow> ?g' ! r ! c = ?g ! r ! c" for r c
  proof (cases "r = unat row")
    case True
    then show ?thesis using assms(2) by (cases "c = unat col") simp_all
  next
    case False
    then show ?thesis by simp
  qed
  show ?thesis
    using ret here shape rest by (intro exI [of _ ?v']) simp
qed

theorem store_into_empty_cell_witness:
  "inventories demo (Obj 0) = Some chest
   \<and> unat (0 :: size_t) < length (inventory_grid chest)
   \<and> unat (1 :: size_t) < length (inventory_grid chest ! unat (0 :: size_t))
   \<and> item_type (inventory_grid chest ! unat (0 :: size_t) ! unat (1 :: size_t)) = NONE
   \<and> (\<exists>v'. Inventory_store 0 1 potion (Obj 0) demo =
               Inr (True, demo\<lparr>inventories := (inventories demo)(Obj 0 \<mapsto> v')\<rparr>)
          \<and> inventory_grid v' ! 0 ! 1 = potion
          \<and> inventory_grid v' ! 1 ! 0 = sword
          \<and> weight v' = 21.5
          \<and> item_count v' = 3)"
proof -
  have v: "inventories demo (Obj 0) = Some chest"
    by (simp add: demo_def)
  have r: "unat (0 :: size_t) < length (inventory_grid chest)"
    by (simp add: chest_def)
  have c: "unat (1 :: size_t) < length (inventory_grid chest ! unat (0 :: size_t))"
    by (simp add: chest_def)
  have e: "item_type (inventory_grid chest ! unat (0 :: size_t) ! unat (1 :: size_t)) = NONE"
    by (simp add: chest_def hole_def)
  from store_into_empty_cell [OF v r c e, of potion]
  obtain v' where ret: "Inventory_store 0 1 potion (Obj 0) demo =
        Inr (True, demo\<lparr>inventories := (inventories demo)(Obj 0 \<mapsto> v')\<rparr>)"
    and here: "inventory_grid v' ! unat (0 :: size_t) ! unat (1 :: size_t) = potion"
    and w: "weight v' = weight chest + item_weight potion"
    and n: "item_count v' = item_count chest + 1"
    and rest: "\<forall>r c. (r, c) \<noteq> (unat (0 :: size_t), unat (1 :: size_t)) \<longrightarrow>
                 inventory_grid v' ! r ! c = inventory_grid chest ! r ! c"
    by blast
  have "inventory_grid v' ! 0 ! 1 = potion"
    using here by simp
  moreover have "inventory_grid v' ! 1 ! 0 = sword"
    using rest [rule_format, of 1 0] by (simp add: chest_def)
  moreover have "weight v' = 21.5"
    using w by (simp add: chest_def potion_def)
  moreover have "item_count v' = 3"
    using n by (simp add: chest_def)
  ultimately show ?thesis
    using v r c e ret by blast
qed

text \<open>
  C4. On an existing inventory and an in-bounds cell whose category is not \<^verbatim>\<open>NONE\<close>,
  \<^verbatim>\<open>store(row, col, item)\<close> returns false and the state, with the grid, the weight and the
  count of the inventory, is unchanged.
\<close>

theorem store_into_occupied_cell:
  assumes "inventories s this = Some v"
    and "unat row < length (inventory_grid v)"
    and "unat col < length (inventory_grid v ! unat row)"
    and "item_type (inventory_grid v ! unat row ! unat col) \<noteq> NONE"
  shows "Inventory_store row col pickup this s = Inr (False, s)"
  using assms by (simp add: Inventory_store_def out_of_bounds_def)

theorem store_into_occupied_cell_witness:
  "inventories demo (Obj 0) = Some chest
   \<and> unat (1 :: size_t) < length (inventory_grid chest)
   \<and> unat (0 :: size_t) < length (inventory_grid chest ! unat (1 :: size_t))
   \<and> item_type (inventory_grid chest ! unat (1 :: size_t) ! unat (0 :: size_t)) \<noteq> NONE
   \<and> Inventory_store 1 0 potion (Obj 0) demo = Inr (False, demo)"
proof -
  have v: "inventories demo (Obj 0) = Some chest"
    by (simp add: demo_def)
  have r: "unat (1 :: size_t) < length (inventory_grid chest)"
    by (simp add: chest_def)
  have c: "unat (0 :: size_t) < length (inventory_grid chest ! unat (1 :: size_t))"
    by (simp add: chest_def)
  have e: "item_type (inventory_grid chest ! unat (1 :: size_t) ! unat (0 :: size_t)) \<noteq> NONE"
    by (simp add: chest_def sword_def)
  from store_into_occupied_cell [OF v r c e, of potion] v r c e
  show ?thesis by blast
qed

section \<open>Storing an item of category \<^verbatim>\<open>NONE\<close>\<close>

text \<open>
  C8. \<^verbatim>\<open>store\<close> does not look at the category of the item it stores. On an existing
  inventory and an in-bounds cell of category \<^verbatim>\<open>NONE\<close>, storing an item of category
  \<^verbatim>\<open>NONE\<close> returns true, places the item, adds its weight to the weight and increments the
  count; the cell still has category \<^verbatim>\<open>NONE\<close> and the occupied cells are the same as
  before. So if the count was the number of occupied cells, it is now one more than that
  number.
\<close>

theorem store_of_NONE_item:
  assumes "inventories s this = Some v"
    and "unat row < length (inventory_grid v)"
    and "unat col < length (inventory_grid v ! unat row)"
    and "item_type (inventory_grid v ! unat row ! unat col) = NONE"
    and "item_type pickup = NONE"
  shows "\<exists>v'. Inventory_store row col pickup this s =
                 Inr (True, s\<lparr>inventories := (inventories s)(this \<mapsto> v')\<rparr>)
          \<and> inventory_grid v' ! unat row ! unat col = pickup
          \<and> item_type (inventory_grid v' ! unat row ! unat col) = NONE
          \<and> weight v' = weight v + item_weight pickup
          \<and> item_count v' = item_count v + 1
          \<and> cells v' = cells v
          \<and> (unat (item_count v) = length (cells v) \<and>
               length (concat (inventory_grid v)) < 2 ^ 64 \<longrightarrow>
               unat (item_count v') = length (cells v') + 1)"
proof -
  let ?g = "inventory_grid v"
  let ?g' = "?g[unat row := (?g ! unat row)[unat col := pickup]]"
  let ?v' = "v\<lparr>inventory_grid := ?g', weight := weight v + item_weight pickup,
               item_count := item_count v + 1\<rparr>"
  have ret: "Inventory_store row col pickup this s =
          Inr (True, s\<lparr>inventories := (inventories s)(this \<mapsto> ?v')\<rparr>)"
    using assms(1-4) by (simp add: Inventory_store_def out_of_bounds_def)
  have here: "?g' ! unat row ! unat col = pickup"
    using assms(2,3) by simp
  have same: "cells ?v' = cells v"
    using cells_put(1) [OF assms(2,3,4), of pickup] assms(5)
    by (simp add: occupied_def cells_def)
  have k: "length (concat (take (unat row) ?g)) + unat col < length (concat ?g)"
      and at: "concat ?g ! (length (concat (take (unat row) ?g)) + unat col) = ?g ! unat row ! unat col"
    using grid_put [OF assms(2,3), of pickup] by simp_all
  have mem: "?g ! unat row ! unat col \<in> set (concat ?g)"
    using nth_mem [OF k] by (simp only: at)
  have less: "length (cells v) < length (concat ?g)"
    unfolding cells_def using mem assms(4)
    by (intro length_filter_less) (simp_all add: occupied_def)
  have more: "unat (item_count v + 1) = length (cells v) + 1"
    if "unat (item_count v) = length (cells v)" "length (concat ?g) < 2 ^ 64"
  proof -
    have "unat (item_count v) + unat (1 :: size_t) < 2 ^ LENGTH(64)"
      using that less by simp
    then have "unat (item_count v + 1) = unat (item_count v) + unat (1 :: size_t)"
      by (simp only: unat_add_lem)
    then show ?thesis using that(1) by simp
  qed
  show ?thesis
    using ret here same more assms(5) by (intro exI [of _ ?v']) simp
qed

theorem store_of_NONE_item_witness:
  "inventories demo (Obj 0) = Some chest
   \<and> unat (0 :: size_t) < length (inventory_grid chest)
   \<and> unat (1 :: size_t) < length (inventory_grid chest ! unat (0 :: size_t))
   \<and> item_type (inventory_grid chest ! unat (0 :: size_t) ! unat (1 :: size_t)) = NONE
   \<and> item_type hole = NONE
   \<and> (\<exists>v'. Inventory_store 0 1 hole (Obj 0) demo =
               Inr (True, demo\<lparr>inventories := (inventories demo)(Obj 0 \<mapsto> v')\<rparr>)
          \<and> item_count v' = 3
          \<and> length (cells v') = 2)"
proof -
  have v: "inventories demo (Obj 0) = Some chest"
    by (simp add: demo_def)
  have r: "unat (0 :: size_t) < length (inventory_grid chest)"
    by (simp add: chest_def)
  have c: "unat (1 :: size_t) < length (inventory_grid chest ! unat (0 :: size_t))"
    by (simp add: chest_def)
  have e: "item_type (inventory_grid chest ! unat (0 :: size_t) ! unat (1 :: size_t)) = NONE"
    by (simp add: chest_def hole_def)
  have p: "item_type hole = NONE"
    by (simp add: hole_def)
  from store_of_NONE_item [OF v r c e p]
  obtain v' where ret: "Inventory_store 0 1 hole (Obj 0) demo =
        Inr (True, demo\<lparr>inventories := (inventories demo)(Obj 0 \<mapsto> v')\<rparr>)"
    and n: "item_count v' = item_count chest + 1"
    and same: "cells v' = cells chest"
    by blast
  have "item_count v' = 3"
    using n by (simp add: chest_def)
  moreover have "length (cells v') = 2"
    unfolding same by (simp add: cells_def chest_def occupied_def sword_def hole_def)
  ultimately show ?thesis
    using v r c e p ret by blast
qed

section \<open>The invariant of the aggregates\<close>

lemma aggregates_ok_cong:
  assumes "inventory_grid v' = inventory_grid v" "weight v' = weight v"
    and "item_count v' = item_count v"
  shows "aggregates_ok v' = aggregates_ok v"
  using assms by (simp add: aggregates_ok_def cells_def)

lemma aggregates_ok_ctor:
  fixes items :: "'w::{zero,plus} Item list list"
  shows "aggregates_ok \<lparr>inventory_grid = items, equipped = e,
           weight = fst (tally items), item_count = snd (tally items)\<rparr>"
  unfolding aggregates_ok_def
  by (intro conjI exI [of _ "map item_weight (filter occupied (concat items))"])
     (simp_all add: cells_def tally_eq)

lemma aggregates_ok_empty:
  "aggregates_ok (v\<lparr>inventory_grid := [], equipped := None, weight := 0, item_count := 0\<rparr>)"
  unfolding aggregates_ok_def
  by (intro conjI exI [of _ "[]"]) (simp_all add: cells_def accumulate_def)

lemma aggregates_ok_store:
  fixes v :: "'w::{zero,plus} Inventory"
  assumes ok: "aggregates_ok v"
    and "r < length (inventory_grid v)" "c < length (inventory_grid v ! r)"
    and "item_type (inventory_grid v ! r ! c) = NONE"
    and "occupied p"
  shows "aggregates_ok
           (v\<lparr>inventory_grid := (inventory_grid v)[r := (inventory_grid v ! r)[c := p]],
              weight := weight v + item_weight p,
              item_count := item_count v + 1\<rparr>)"
proof -
  let ?u = "v\<lparr>inventory_grid := (inventory_grid v)[r := (inventory_grid v ! r)[c := p]]\<rparr>"
  let ?v' = "?u\<lparr>weight := weight v + item_weight p, item_count := item_count v + 1\<rparr>"
  from cells_put(2) [OF assms(2,3,4,5)]
  obtain before after where old: "cells v = before @ after"
    and new: "cells ?u = before @ p # after"
    by blast
  have cells: "cells ?v' = before @ p # after"
    using new by (simp add: cells_def)
  from ok obtain ws where ws: "mset ws = mset (map item_weight (cells v))"
    and w: "weight v = accumulate ws"
    and n: "item_count v = of_nat (length (cells v))"
    by (auto simp: aggregates_ok_def)
  have "mset (ws @ [item_weight p]) = mset (map item_weight (cells ?v'))"
    by (simp add: ws old cells)
  moreover have "weight ?v' = accumulate (ws @ [item_weight p])"
    by (simp add: w accumulate_def)
  moreover have len: "length (cells ?v') = Suc (length (cells v))"
    unfolding cells old by simp
  have "item_count ?v' = of_nat (length (cells ?v'))"
    unfolding len using n by simp
  ultimately have "aggregates_ok ?v'"
    unfolding aggregates_ok_def by blast
  then show ?thesis by simp
qed

text \<open>With an addition that is associative and commutative the order does not matter.\<close>

lemma accumulate_exact:
  fixes ws :: "'w::comm_monoid_add list"
  shows "accumulate ws = sum_list ws"
proof -
  have "foldl (+) a ws = a + sum_list ws" for a :: 'w
    by (induction ws arbitrary: a) (simp_all add: add.assoc)
  then show ?thesis by (simp add: accumulate_def)
qed

lemma aggregates_ok_exact:
  fixes v :: "'w::comm_monoid_add Inventory"
  assumes "aggregates_ok v"
  shows "weight v = sum_list (map item_weight (cells v))"
proof -
  from assms obtain ws where ws: "mset ws = mset (map item_weight (cells v))"
    and w: "weight v = accumulate ws"
    by (auto simp: aggregates_ok_def)
  from ws have "sum_mset (mset ws) = sum_mset (mset (map item_weight (cells v)))"
    by simp
  then have "sum_list ws = sum_list (map item_weight (cells v))"
    by (simp only: sum_mset_sum_list)
  with w show ?thesis by (simp add: accumulate_exact)
qed

lemma store_keeps:
  fixes s :: "'w::{zero,plus} state"
  assumes "\<forall>r v. inventories s r = Some v \<longrightarrow> aggregates_ok v"
    and "occupied pickup"
    and "Inventory_store row col pickup this s = Inr (stored, s')"
  shows "\<forall>r v. inventories s' r = Some v \<longrightarrow> aggregates_ok v"
proof (cases "inventories s this")
  case None
  then show ?thesis using assms(3) by (simp add: Inventory_store_def)
next
  case (Some v)
  then have ok: "aggregates_ok v" using assms(1) by blast
  show ?thesis
  proof (cases "out_of_bounds (inventory_grid v) row col")
    case True
    then show ?thesis using assms(3) Some by (simp add: Inventory_store_def)
  next
    case False
    then have r: "unat row < length (inventory_grid v)"
      and c: "unat col < length (inventory_grid v ! unat row)"
      by (auto simp: out_of_bounds_def split: if_splits)
    show ?thesis
    proof (cases "item_type (inventory_grid v ! unat row ! unat col) = NONE")
      case True
      from aggregates_ok_store [OF ok r c True assms(2)] assms(1,3) Some False True
      show ?thesis by (auto simp: Inventory_store_def split: if_splits)
    next
      case occ: False
      then show ?thesis using assms(1,3) Some False by (auto simp: Inventory_store_def)
    qed
  qed
qed

lemma perform_keeps:
  fixes s :: "'w::{zero,plus} state"
  assumes ok: "\<forall>r v. inventories s r = Some v \<longrightarrow> aggregates_ok v"
    and "stores_occupied c"
    and "perform c s = Inr s'"
  shows "\<forall>r v. inventories s' r = Some v \<longrightarrow> aggregates_ok v"
proof (cases c)
  case (Construct this items e)
  then show ?thesis using ok assms(3) aggregates_ok_ctor [of items e]
    by (auto simp: Inventory_ctor_def split: prod.splits if_splits)
next
  case (Store row col pickup this)
  then show ?thesis using store_keeps [OF ok, of pickup row col this] assms(2,3)
    by (auto split: sum.splits prod.splits)
next
  case (Equip p this)
  then show ?thesis using ok assms(3)
    by (auto simp: Inventory_equip_def aggregates_ok_cong [of "v\<lparr>equipped := p\<rparr>" v for v]
        split: option.splits if_splits)
next
  case (DiscardEquipped this)
  then show ?thesis using ok assms(3)
    by (auto simp: Inventory_discardEquipped_def
        aggregates_ok_cong [of "v\<lparr>equipped := None\<rparr>" v for v]
        split: option.splits if_splits)
next
  case (Copy_construct this rhs)
  then show ?thesis using ok assms(3)
    by (auto simp: Inventory_copy_ctor_def
        aggregates_ok_cong [of "\<lparr>inventory_grid = inventory_grid v, equipped = p,
          weight = weight v, item_count = item_count v\<rparr>" v for v p]
        split: option.splits if_splits)
next
  case (Move_construct this rhs)
  then show ?thesis using ok assms(3)
    by (auto simp: Inventory_move_ctor_def aggregates_ok_empty
        aggregates_ok_cong [of "\<lparr>inventory_grid = inventory_grid v, equipped = p,
          weight = weight v, item_count = item_count v\<rparr>" v for v p]
        split: option.splits if_splits)
next
  case (Copy_assign this rhs)
  then show ?thesis using ok assms(3)
    by (auto simp: Inventory_copy_assign_def
        aggregates_ok_cong [of "t\<lparr>inventory_grid := inventory_grid v, weight := weight v,
          item_count := item_count v, equipped := p\<rparr>" v for t v p]
        split: option.splits if_splits)
next
  case (Move_assign this rhs)
  then show ?thesis using ok assms(3)
    by (auto simp: Inventory_move_assign_def aggregates_ok_empty
        aggregates_ok_cong [of "t\<lparr>inventory_grid := inventory_grid v, equipped := p,
          weight := weight v, item_count := item_count v\<rparr>" v for t v p]
        split: option.splits if_splits)
next
  case (New_Item x)
  then show ?thesis using ok assms(3) by auto
qed

lemma run_keeps:
  fixes s :: "'w::{zero,plus} state"
  assumes "\<forall>r v. inventories s r = Some v \<longrightarrow> aggregates_ok v"
    and "list_all stores_occupied calls"
    and "run calls s = Inr s'"
  shows "\<forall>r v. inventories s' r = Some v \<longrightarrow> aggregates_ok v"
  using assms
proof (induction calls arbitrary: s)
  case Nil
  then show ?case by simp
next
  case (Cons c calls)
  from Cons.prems(3) obtain s1 where step: "perform c s = Inr s1" and rest: "run calls s1 = Inr s'"
    by (auto split: sum.splits)
  from perform_keeps [OF Cons.prems(1) _ step] Cons.prems(2)
  have "\<forall>r v. inventories s1 r = Some v \<longrightarrow> aggregates_ok v" by simp
  from Cons.IH [OF this _ rest] Cons.prems(2) show ?case by simp
qed

text \<open>
  C1, in the form that holds of the code. Let a client program run from the empty state,
  and let every \<^verbatim>\<open>store\<close> of the program store an item of a category other than
  \<^verbatim>\<open>NONE\<close>. Then every inventory of the state reached has as its weight the sum of the
  weights of the grid cells whose category is not \<^verbatim>\<open>NONE\<close>, each such cell taken once and
  the weights added one after the other from \<^verbatim>\<open>0\<close> with the addition of the code, in some
  order of the cells; and as its count the number of such cells (as a \<^verbatim>\<open>size_t\<close>; the
  number itself when the grid has fewer than \<open>2 ^ 64\<close> cells). No law of the addition is
  assumed. The cells are those of the grid: the equipped item is in neither aggregate.
\<close>

theorem aggregates_of_reachable_inventory:
  fixes s :: "'w::{zero,plus} state"
  assumes "run calls initial = Inr s"
    and "list_all stores_occupied calls"
    and "inventories s r = Some v"
  shows "(\<exists>ws. mset ws = mset (map item_weight (cells v)) \<and> weight v = accumulate ws)
       \<and> item_count v = of_nat (length (cells v))
       \<and> (length (concat (inventory_grid v)) < 2 ^ 64 \<longrightarrow>
            unat (item_count v) = length (cells v))"
proof -
  have "\<forall>r v. inventories (initial :: 'w state) r = Some v \<longrightarrow> aggregates_ok v"
    by (simp add: initial_def)
  from run_keeps [OF this assms(2,1)] assms(3)
  have ok: "aggregates_ok v" by blast
  then have n: "item_count v = of_nat (length (cells v))"
    by (simp add: aggregates_ok_def)
  have "unat (item_count v) = length (cells v)"
    if "length (concat (inventory_grid v)) < 2 ^ 64"
  proof -
    have "length (cells v) < 2 ^ LENGTH(64)"
      using that cells_le [of v] by simp
    then have "unat (of_nat (length (cells v)) :: size_t) = length (cells v)"
      by (simp only: unat_of_nat mod_less)
    then show ?thesis using n by simp
  qed
  then show ?thesis using ok unfolding aggregates_ok_def by blast
qed

theorem aggregates_of_reachable_inventory_witness:
  "list_all stores_occupied session
   \<and> (\<exists>s. run session initial = Inr s \<and> inventories s (Obj 2) = Some treasure)
   \<and> cells treasure = [sword, potion, sword]
   \<and> (\<exists>ws. mset ws = mset (map item_weight (cells treasure)) \<and> weight treasure = accumulate ws)
   \<and> item_count treasure = of_nat (length (cells treasure))
   \<and> unat (item_count treasure) = length (cells treasure)"
proof -
  have calls: "list_all stores_occupied session"
    by (simp add: session_def occupied_def potion_def)
  have "case run session initial of
          Inl e \<Rightarrow> False
        | Inr s \<Rightarrow> inventories s (Obj 2) = Some treasure"
    by (simp add: session_def treasure_def initial_def Inventory_ctor_def tally_def
        Inventory_store_def out_of_bounds_def Inventory_copy_ctor_def duplicate_def
        deref_def new_Item_def Inventory_move_ctor_def sword_def hole_def potion_def)
  then obtain s where ran: "run session initial = Inr s"
    and v: "inventories s (Obj 2) = Some treasure"
    by (cases "run session initial") simp_all
  have c: "cells treasure = [sword, potion, sword]"
    by (simp add: cells_def treasure_def occupied_def sword_def potion_def)
  have small: "length (concat (inventory_grid treasure)) < 2 ^ 64"
    by (simp add: treasure_def)
  from aggregates_of_reachable_inventory [OF ran calls v] small
  have "\<exists>ws. mset ws = mset (map item_weight (cells treasure)) \<and> weight treasure = accumulate ws"
    and "item_count treasure = of_nat (length (cells treasure))"
    and "unat (item_count treasure) = length (cells treasure)"
    by blast+
  with calls ran v c show ?thesis by blast
qed

text \<open>
  Without the condition on the stored items the invariant fails: a program may store an
  item of category \<^verbatim>\<open>NONE\<close>. After constructing a grid of one empty cell and storing \<open>hole\<close> into it, the count is
  1 and no cell has a category other than \<^verbatim>\<open>NONE\<close>.
\<close>

theorem aggregates_of_reachable_inventory_counterexample:
  "run [Construct (Obj 0) [[hole]] None, Store 0 0 hole (Obj 0)] initial =
     Inr \<lparr>free_store = [],
          inventories = [Obj 0 \<mapsto>
            \<lparr>inventory_grid = [[hole]], equipped = None, weight = 0, item_count = 1\<rparr>],
          names = Map.empty\<rparr>
   \<and> cells \<lparr>inventory_grid = [[hole]], equipped = None, weight = 0, item_count = 1\<rparr> = []
   \<and> \<not> aggregates_ok
         \<lparr>inventory_grid = [[hole]], equipped = None, weight = 0, item_count = 1\<rparr>"
  by (simp add: initial_def Inventory_ctor_def tally_def Inventory_store_def
      out_of_bounds_def hole_def cells_def occupied_def aggregates_ok_def)

section \<open>Equipping and discarding\<close>

text \<open>
  C7. On an existing inventory, \<^verbatim>\<open>equip(newItem)\<close> rebinds the equipped pointer to
  \<open>newItem\<close>. The free store is left as it was: nothing is released, so the item that was
  equipped before is still there, with the same value. The grid, the weight and the count
  of the inventory, every other inventory and every name are unchanged.
\<close>

theorem equip_rebinds_without_release:
  assumes "inventories s this = Some v"
  shows "\<exists>s' v'. Inventory_equip newItem this s = Inr s'
          \<and> inventories s' this = Some v'
          \<and> equipped v' = newItem
          \<and> Inventory_getEquipped this s' = Inr newItem
          \<and> free_store s' = free_store s
          \<and> (\<forall>a. equipped v = Some a \<longrightarrow> deref (free_store s') a = deref (free_store s) a)
          \<and> inventory_grid v' = inventory_grid v
          \<and> weight v' = weight v
          \<and> item_count v' = item_count v
          \<and> (\<forall>r. r \<noteq> this \<longrightarrow> inventories s' r = inventories s r)
          \<and> names s' = names s"
  using assms by (simp add: Inventory_equip_def Inventory_getEquipped_def)

theorem equip_rebinds_without_release_witness:
  "inventories demo (Obj 0) = Some chest
   \<and> equipped chest = Some 0
   \<and> deref (free_store demo) 0 = Some shield
   \<and> (\<exists>s'. Inventory_equip None (Obj 0) demo = Inr s'
          \<and> Inventory_getEquipped (Obj 0) s' = Inr None
          \<and> deref (free_store s') 0 = Some shield)"
proof -
  have v: "inventories demo (Obj 0) = Some chest"
    by (simp add: demo_def)
  have e: "equipped chest = Some 0"
    by (simp add: chest_def)
  have x: "deref (free_store demo) 0 = Some shield"
    by (simp add: demo_def deref_def)
  from equip_rebinds_without_release [OF v, of None] e
  obtain s' where "Inventory_equip None (Obj 0) demo = Inr s'"
    and "Inventory_getEquipped (Obj 0) s' = Inr None"
    and "deref (free_store s') 0 = deref (free_store demo) 0"
    by blast
  with v e x show ?thesis by auto
qed

text \<open>
  C9. \<^verbatim>\<open>discardEquipped\<close> on an inventory with no equipped item returns in the same
  state. Two calls in a row do what one call does, whatever the first one does: when the
  first call returns, the second returns in the state the first one reached. When the
  equipped pointer is a live item, the first call returns: it deletes the item and sets
  the pointer to \<^verbatim>\<open>nullptr\<close>.
\<close>

theorem discardEquipped_idempotent:
  "(inventories s this = Some v \<and> equipped v = None \<longrightarrow>
      Inventory_discardEquipped this s = Inr s)
   \<and> (case Inventory_discardEquipped this s of
         Inl e \<Rightarrow> Inl e
       | Inr s' \<Rightarrow> Inventory_discardEquipped this s') = Inventory_discardEquipped this s
   \<and> (\<forall>s'. Inventory_discardEquipped this s = Inr s' \<longrightarrow>
         Inventory_discardEquipped this s' = Inr s')
   \<and> (inventories s this = Some v \<and> equipped v = Some a \<and> deref (free_store s) a = Some x \<longrightarrow>
        (\<exists>s'. Inventory_discardEquipped this s = Inr s'
           \<and> deref (free_store s') a = None
           \<and> Inventory_getEquipped this s' = Inr None))"
proof -
  have again: "Inventory_discardEquipped this s' = Inr s'"
    if "Inventory_discardEquipped this s = Inr s'" for s'
    using that
    by (auto simp: Inventory_discardEquipped_def split: option.splits)
  have none: "Inventory_discardEquipped this s = Inr s"
    if "inventories s this = Some v" "equipped v = None"
    using that by (simp add: Inventory_discardEquipped_def)
  have twice: "(case Inventory_discardEquipped this s of
         Inl e \<Rightarrow> Inl e
       | Inr s' \<Rightarrow> Inventory_discardEquipped this s') = Inventory_discardEquipped this s"
    using again by (cases "Inventory_discardEquipped this s") simp_all
  have live: "\<exists>s'. Inventory_discardEquipped this s = Inr s'
           \<and> deref (free_store s') a = None
           \<and> Inventory_getEquipped this s' = Inr None"
    if "inventories s this = Some v" "equipped v = Some a" "deref (free_store s) a = Some x"
    using that
    by (auto simp: Inventory_discardEquipped_def Inventory_getEquipped_def delete_Item_def
        deref_def split: if_splits)
  from again none twice live show ?thesis by blast
qed

theorem discardEquipped_idempotent_witness:
  "inventories demo (Obj 0) = Some chest
   \<and> equipped chest = Some 0
   \<and> deref (free_store demo) 0 = Some shield
   \<and> (\<exists>s'. Inventory_discardEquipped (Obj 0) demo = Inr s'
          \<and> Inventory_getEquipped (Obj 0) s' = Inr None
          \<and> Inventory_discardEquipped (Obj 0) s' = Inr s')"
proof -
  have v: "inventories demo (Obj 0) = Some chest"
    by (simp add: demo_def)
  have e: "equipped chest = Some 0"
    by (simp add: chest_def)
  have x: "deref (free_store demo) 0 = Some shield"
    by (simp add: demo_def deref_def)
  note t = discardEquipped_idempotent [of demo "Obj 0" chest 0 shield]
  from t v e x
  obtain s' where first: "Inventory_discardEquipped (Obj 0) demo = Inr s'"
    and null: "Inventory_getEquipped (Obj 0) s' = Inr None"
    by blast
  from t first have "Inventory_discardEquipped (Obj 0) s' = Inr s'"
    by blast
  with v e x first null show ?thesis by blast
qed

section \<open>Moving an inventory\<close>

lemma deref_less: "deref h a = Some x \<Longrightarrow> a < length h"
  by (simp add: deref_def split: if_splits)

lemma deref_put: "deref (h[a := y]) b = (if b = a \<and> a < length h then y else deref h b)"
  by (simp add: deref_def)

lemma deref_new: "deref (h @ [y]) b = (if b = length h then y else deref h b)"
  by (simp add: deref_def nth_append)

lemma delete_owned:
  assumes "p = None \<or> (\<exists>c y. p = Some c \<and> deref h c = Some y)"
  shows "\<exists>h'. delete_Item p h = Some h' \<and> length h' = length h
           \<and> (\<forall>a. Some a \<noteq> p \<longrightarrow> deref h' a = deref h a)
           \<and> (\<forall>c. p = Some c \<longrightarrow> deref h' c = None)"
  using assms by (auto simp: delete_Item_def deref_put dest: deref_less)

lemma moved_from_usable:
  assumes "inventories s this = Some moved_from"
  shows "Inventory_store row col pickup this s = Inl (out_of_range s)"
    and "Inventory_at row col this s = Inl (out_of_range s)"
    and "Inventory_discardEquipped this s = Inr s"
    and "Inventory_getWeight this s = Inr 0"
    and "Inventory_getCount this s = Inr 0"
    and "Inventory_getItems this s = Inr []"
    and "Inventory_getEquipped this s = Inr None"
  using assms
  by (simp_all add: moved_from_def Inventory_store_def Inventory_at_def out_of_bounds_def
      Inventory_discardEquipped_def Inventory_getWeight_def Inventory_getCount_def
      Inventory_getItems_def Inventory_getEquipped_def)

text \<open>
  C5, in the form that holds of the code. Let the source \<open>rhs\<close> be an existing inventory
  and the destination \<open>this\<close> another object. After the move constructor, and after the
  move assignment when the destination existed and its equipped pointer was \<^verbatim>\<open>nullptr\<close>
  or a live item that is not the equipped item of the source:
  the destination is what the source was (grid, equipped pointer, weight and count) and
  its equipped item is the item, with its value, that the source had equipped; the source
  is in the moved-from state: weight 0, count 0, an empty grid, no equipped item. The
  move constructor leaves the free store as it is. The move assignment deletes the item
  that the destination had equipped and leaves every other item of the free store. No
  other inventory and no name changes. The source is usable: its getters return these
  values, \<^verbatim>\<open>discardEquipped\<close> returns, and \<^verbatim>\<open>store\<close> throws \<^verbatim>\<open>std::out_of_range\<close> for
  every index. A move assignment of an inventory to itself returns in the same state.
\<close>

theorem move_transfers_and_empties:
  assumes "inventories s rhs = Some r"
  shows "(this \<noteq> rhs \<longrightarrow>
           (\<exists>s'. Inventory_move_ctor this rhs s = Inr s'
              \<and> inventories s' this = Some r
              \<and> equipped_item this s' = equipped_item rhs s
              \<and> inventories s' rhs = Some moved_from
              \<and> free_store s' = free_store s
              \<and> (\<forall>x. x \<noteq> this \<and> x \<noteq> rhs \<longrightarrow> inventories s' x = inventories s x)
              \<and> names s' = names s
              \<and> Inventory_getWeight rhs s' = Inr 0
              \<and> Inventory_getCount rhs s' = Inr 0
              \<and> Inventory_getItems rhs s' = Inr []
              \<and> Inventory_getEquipped rhs s' = Inr None
              \<and> Inventory_discardEquipped rhs s' = Inr s'
              \<and> (\<forall>row col pickup.
                    Inventory_store row col pickup rhs s' = Inl (out_of_range s'))))
       \<and> (this \<noteq> rhs \<and> inventories s this = Some t \<and>
            (equipped t = None \<or>
             (\<exists>c y. equipped t = Some c \<and> deref (free_store s) c = Some y \<and>
                    equipped r \<noteq> Some c))
           \<longrightarrow>
           (\<exists>s'. Inventory_move_assign this rhs s = Inr s'
              \<and> inventories s' this = Some r
              \<and> equipped_item this s' = equipped_item rhs s
              \<and> inventories s' rhs = Some moved_from
              \<and> (\<forall>c. equipped t = Some c \<longrightarrow> deref (free_store s') c = None)
              \<and> (\<forall>a. Some a \<noteq> equipped t \<longrightarrow> deref (free_store s') a = deref (free_store s) a)
              \<and> length (free_store s') = length (free_store s)
              \<and> (\<forall>x. x \<noteq> this \<and> x \<noteq> rhs \<longrightarrow> inventories s' x = inventories s x)
              \<and> names s' = names s
              \<and> Inventory_getWeight rhs s' = Inr 0
              \<and> Inventory_getCount rhs s' = Inr 0
              \<and> Inventory_getItems rhs s' = Inr []
              \<and> Inventory_getEquipped rhs s' = Inr None
              \<and> Inventory_discardEquipped rhs s' = Inr s'
              \<and> (\<forall>row col pickup.
                    Inventory_store row col pickup rhs s' = Inl (out_of_range s'))))
       \<and> Inventory_move_assign rhs rhs s = Inr s"
proof -
  have usable: "Inventory_getWeight rhs s' = Inr 0
              \<and> Inventory_getCount rhs s' = Inr 0
              \<and> Inventory_getItems rhs s' = Inr []
              \<and> Inventory_getEquipped rhs s' = Inr None
              \<and> Inventory_discardEquipped rhs s' = Inr s'
              \<and> (\<forall>row col pickup.
                    Inventory_store row col pickup rhs s' = Inl (out_of_range s'))"
    if "inventories s' rhs = Some moved_from" for s' :: "'a state"
    using moved_from_usable [OF that] by simp
  have ctor: "\<exists>s'. Inventory_move_ctor this rhs s = Inr s'
              \<and> inventories s' this = Some r
              \<and> equipped_item this s' = equipped_item rhs s
              \<and> inventories s' rhs = Some moved_from
              \<and> free_store s' = free_store s
              \<and> (\<forall>x. x \<noteq> this \<and> x \<noteq> rhs \<longrightarrow> inventories s' x = inventories s x)
              \<and> names s' = names s"
    if "this \<noteq> rhs"
    using that assms
    by (simp add: Inventory_move_ctor_def moved_from_def equipped_item_def cong: option.case_cong)
  have assign: "\<exists>s'. Inventory_move_assign this rhs s = Inr s'
              \<and> inventories s' this = Some r
              \<and> equipped_item this s' = equipped_item rhs s
              \<and> inventories s' rhs = Some moved_from
              \<and> (\<forall>c. equipped t = Some c \<longrightarrow> deref (free_store s') c = None)
              \<and> (\<forall>a. Some a \<noteq> equipped t \<longrightarrow> deref (free_store s') a = deref (free_store s) a)
              \<and> length (free_store s') = length (free_store s)
              \<and> (\<forall>x. x \<noteq> this \<and> x \<noteq> rhs \<longrightarrow> inventories s' x = inventories s x)
              \<and> names s' = names s"
    if "this \<noteq> rhs" "inventories s this = Some t"
      "equipped t = None \<or>
       (\<exists>c y. equipped t = Some c \<and> deref (free_store s) c = Some y \<and> equipped r \<noteq> Some c)"
  proof -
    from that(3)
    have "equipped t = None \<or> (\<exists>c y. equipped t = Some c \<and> deref (free_store s) c = Some y)"
      by blast
    from delete_owned [OF this]
    obtain h' where del: "delete_Item (equipped t) (free_store s) = Some h'"
      and len: "length h' = length (free_store s)"
      and keep: "\<forall>a. Some a \<noteq> equipped t \<longrightarrow> deref h' a = deref (free_store s) a"
      and gone: "\<forall>c. equipped t = Some c \<longrightarrow> deref h' c = None"
      by blast
    have item: "(case equipped r of None \<Rightarrow> None | Some a \<Rightarrow> deref h' a) =
                (case equipped r of None \<Rightarrow> None | Some a \<Rightarrow> deref (free_store s) a)"
      using that(3) keep by (cases "equipped r") auto
    show ?thesis
      using that(1,2) assms del len keep gone item
      by (simp add: Inventory_move_assign_def moved_from_def equipped_item_def
          cong: option.case_cong)
  qed
  have self: "Inventory_move_assign rhs rhs s = Inr s"
    using assms by (simp add: Inventory_move_assign_def)
  show ?thesis
  proof (intro conjI impI)
    assume "this \<noteq> rhs"
    from ctor [OF this] obtain s' where s': "Inventory_move_ctor this rhs s = Inr s'"
      "inventories s' this = Some r" "inventories s' rhs = Some moved_from"
      "equipped_item this s' = equipped_item rhs s"
      "free_store s' = free_store s"
      "\<forall>x. x \<noteq> this \<and> x \<noteq> rhs \<longrightarrow> inventories s' x = inventories s x"
      "names s' = names s"
      by blast
    with usable [OF s'(3)]
    show "\<exists>s'. Inventory_move_ctor this rhs s = Inr s'
              \<and> inventories s' this = Some r
              \<and> equipped_item this s' = equipped_item rhs s
              \<and> inventories s' rhs = Some moved_from
              \<and> free_store s' = free_store s
              \<and> (\<forall>x. x \<noteq> this \<and> x \<noteq> rhs \<longrightarrow> inventories s' x = inventories s x)
              \<and> names s' = names s
              \<and> Inventory_getWeight rhs s' = Inr 0
              \<and> Inventory_getCount rhs s' = Inr 0
              \<and> Inventory_getItems rhs s' = Inr []
              \<and> Inventory_getEquipped rhs s' = Inr None
              \<and> Inventory_discardEquipped rhs s' = Inr s'
              \<and> (\<forall>row col pickup.
                    Inventory_store row col pickup rhs s' = Inl (out_of_range s'))"
      by (intro exI [of _ s']) simp
  next
    assume "this \<noteq> rhs \<and> inventories s this = Some t \<and>
            (equipped t = None \<or>
             (\<exists>c y. equipped t = Some c \<and> deref (free_store s) c = Some y \<and>
                    equipped r \<noteq> Some c))"
    then have "\<exists>s'. Inventory_move_assign this rhs s = Inr s'
              \<and> inventories s' this = Some r
              \<and> equipped_item this s' = equipped_item rhs s
              \<and> inventories s' rhs = Some moved_from
              \<and> (\<forall>c. equipped t = Some c \<longrightarrow> deref (free_store s') c = None)
              \<and> (\<forall>a. Some a \<noteq> equipped t \<longrightarrow> deref (free_store s') a = deref (free_store s) a)
              \<and> length (free_store s') = length (free_store s)
              \<and> (\<forall>x. x \<noteq> this \<and> x \<noteq> rhs \<longrightarrow> inventories s' x = inventories s x)
              \<and> names s' = names s"
      by (intro assign) simp_all
    then obtain s' where s': "Inventory_move_assign this rhs s = Inr s'"
      "inventories s' this = Some r" "inventories s' rhs = Some moved_from"
      "equipped_item this s' = equipped_item rhs s"
      "\<forall>c. equipped t = Some c \<longrightarrow> deref (free_store s') c = None"
      "\<forall>a. Some a \<noteq> equipped t \<longrightarrow> deref (free_store s') a = deref (free_store s) a"
      "length (free_store s') = length (free_store s)"
      "\<forall>x. x \<noteq> this \<and> x \<noteq> rhs \<longrightarrow> inventories s' x = inventories s x"
      "names s' = names s"
      by blast
    with usable [OF s'(3)]
    show "\<exists>s'. Inventory_move_assign this rhs s = Inr s'
              \<and> inventories s' this = Some r
              \<and> equipped_item this s' = equipped_item rhs s
              \<and> inventories s' rhs = Some moved_from
              \<and> (\<forall>c. equipped t = Some c \<longrightarrow> deref (free_store s') c = None)
              \<and> (\<forall>a. Some a \<noteq> equipped t \<longrightarrow> deref (free_store s') a = deref (free_store s) a)
              \<and> length (free_store s') = length (free_store s)
              \<and> (\<forall>x. x \<noteq> this \<and> x \<noteq> rhs \<longrightarrow> inventories s' x = inventories s x)
              \<and> names s' = names s
              \<and> Inventory_getWeight rhs s' = Inr 0
              \<and> Inventory_getCount rhs s' = Inr 0
              \<and> Inventory_getItems rhs s' = Inr []
              \<and> Inventory_getEquipped rhs s' = Inr None
              \<and> Inventory_discardEquipped rhs s' = Inr s'
              \<and> (\<forall>row col pickup.
                    Inventory_store row col pickup rhs s' = Inl (out_of_range s'))"
      by (intro exI [of _ s']) simp
  next
    show "Inventory_move_assign rhs rhs s = Inr s" by (rule self)
  qed
qed

theorem move_transfers_and_empties_witness:
  "inventories rivals (Obj 0) = Some chest
   \<and> Obj 1 \<noteq> Obj 0
   \<and> inventories rivals (Obj 1) = Some satchel
   \<and> equipped satchel = Some 1
   \<and> deref (free_store rivals) 1 = Some helmet
   \<and> equipped chest \<noteq> Some 1
   \<and> equipped_item (Obj 0) rivals = Some shield
   \<and> (\<exists>s'. Inventory_move_assign (Obj 1) (Obj 0) rivals = Inr s'
          \<and> inventories s' (Obj 1) = Some chest
          \<and> equipped_item (Obj 1) s' = Some shield
          \<and> inventories s' (Obj 0) = Some moved_from
          \<and> deref (free_store s') 1 = None
          \<and> deref (free_store s') 0 = Some shield)"
proof -
  have r: "inventories rivals (Obj 0) = Some chest"
    by (simp add: rivals_def)
  have d: "Obj 1 \<noteq> Obj 0"
    by simp
  have t: "inventories rivals (Obj 1) = Some satchel"
    by (simp add: rivals_def)
  have e: "equipped satchel = Some 1"
    by (simp add: satchel_def)
  have y: "deref (free_store rivals) 1 = Some helmet"
    by (simp add: rivals_def deref_def)
  have n: "equipped chest \<noteq> Some 1"
    by (simp add: chest_def)
  have x: "deref (free_store rivals) 0 = Some shield"
    by (simp add: rivals_def deref_def)
  have i: "equipped_item (Obj 0) rivals = Some shield"
    by (simp add: equipped_item_def rivals_def chest_def deref_def)
  have owned: "equipped satchel = None \<or>
         (\<exists>c y. equipped satchel = Some c \<and> deref (free_store rivals) c = Some y \<and>
                equipped chest \<noteq> Some c)"
    using e y n by blast
  from move_transfers_and_empties [OF r, of "Obj 1" satchel] d t owned
  obtain s' where s': "Inventory_move_assign (Obj 1) (Obj 0) rivals = Inr s'"
    "inventories s' (Obj 1) = Some chest"
    "equipped_item (Obj 1) s' = equipped_item (Obj 0) rivals"
    "inventories s' (Obj 0) = Some moved_from"
    "\<forall>c. equipped satchel = Some c \<longrightarrow> deref (free_store s') c = None"
    "\<forall>a. Some a \<noteq> equipped satchel \<longrightarrow> deref (free_store s') a = deref (free_store rivals) a"
    by blast
  from s'(5) e have "deref (free_store s') 1 = None"
    by blast
  moreover from s'(6) e x have "deref (free_store s') 0 = Some shield"
    by simp
  moreover from s'(3) i have "equipped_item (Obj 1) s' = Some shield"
    by simp
  ultimately show ?thesis
    using r d t e y n i s'(1,2,4) by blast
qed

text \<open>
  Without the condition that the two objects differ the statement fails, for the move
  assignment of an inventory to itself: the operator tests \<^verbatim>\<open>this != &rhs\<close> and does nothing, so the inventory that was moved
  from keeps its grid, its equipped item, its weight and its count.
\<close>

theorem move_transfers_and_empties_counterexample:
  "Inventory_move_assign (Obj 0) (Obj 0) demo = Inr demo
   \<and> Inventory_getWeight (Obj 0) demo = Inr 21
   \<and> Inventory_getCount (Obj 0) demo = Inr 2
   \<and> Inventory_getItems (Obj 0) demo = Inr [[sword, hole], [sword]]
   \<and> Inventory_getEquipped (Obj 0) demo = Inr (Some 0)"
  by (simp add: Inventory_move_assign_def Inventory_getWeight_def Inventory_getCount_def
      Inventory_getItems_def Inventory_getEquipped_def demo_def chest_def)

section \<open>Moving a player\<close>





section \<open>Copying an inventory\<close>

text \<open>
  Two inventories whose equipped pointers are different live items: writing through one
  pointer or discarding one equipped item leaves the value of the other item.
\<close>

lemma separate_items:
  assumes "this \<noteq> rhs"
    and "inventories s this = Some u" "equipped u = Some b" "deref (free_store s) b = Some y"
    and "inventories s rhs = Some r" "equipped r = Some a" "deref (free_store s) a = Some x"
    and "a \<noteq> b"
  shows "\<exists>s'. assign_equipped z this s = Inr s'
           \<and> equipped_item this s' = Some z \<and> equipped_item rhs s' = Some x"
    and "\<exists>s'. Inventory_discardEquipped this s = Inr s'
           \<and> equipped_item this s' = None \<and> equipped_item rhs s' = Some x"
proof -
  have b: "b < length (free_store s)"
    using assms(4) by (rule deref_less)
  show "\<exists>s'. assign_equipped z this s = Inr s'
           \<and> equipped_item this s' = Some z \<and> equipped_item rhs s' = Some x"
    using assms b by (simp add: assign_equipped_def equipped_item_def deref_put)
  show "\<exists>s'. Inventory_discardEquipped this s = Inr s'
           \<and> equipped_item this s' = None \<and> equipped_item rhs s' = Some x"
    using assms b
    by (simp add: Inventory_discardEquipped_def delete_Item_def equipped_item_def deref_put)
qed

lemma duplicate_live:
  assumes "deref h a = Some x"
  shows "duplicate (Some a) h = Some (Some (length h), h @ [Some x])"
  using assms by (simp add: duplicate_def new_Item_def)

lemma copy_assign_self:
  assumes "inventories s rhs = Some r"
  shows "Inventory_copy_assign rhs rhs s = Inr s"
  using assms by (simp add: Inventory_copy_assign_def)

text \<open>
  C6. Let \<open>rhs\<close> be an existing inventory whose equipped pointer is a live item of value
  \<open>x\<close>, and \<open>this\<close> another object. After the copy constructor, and after the copy
  assignment when \<open>this\<close> existed and its equipped pointer was \<^verbatim>\<open>nullptr\<close> or a live
  item other than the one of \<open>rhs\<close>: both inventories have an equipped item of value
  \<open>x\<close>, at two different addresses; writing a value through the equipped pointer of
  either changes the equipped item of that one only; discarding the equipped item of
  either leaves the equipped item of the other with the value \<open>x\<close>. (A copy assignment of
  an inventory to itself is guarded by \<^verbatim>\<open>this != &rhs\<close>: it returns in the same state, by
  \<open>copy_assign_self\<close>, and yields no second inventory.)
\<close>

theorem copies_own_their_equipped_item:
  assumes "this \<noteq> rhs"
    and "inventories s rhs = Some r"
    and "equipped r = Some a"
    and "deref (free_store s) a = Some x"
    and "copied = Inventory_copy_ctor this rhs s \<or>
         copied = Inventory_copy_assign this rhs s \<and>
         (\<exists>t. inventories s this = Some t \<and>
            (equipped t = None \<or>
             (\<exists>c y. equipped t = Some c \<and> c \<noteq> a \<and> deref (free_store s) c = Some y)))"
  shows "\<exists>s' b. copied = Inr s'
          \<and> Inventory_getEquipped rhs s' = Inr (Some a)
          \<and> Inventory_getEquipped this s' = Inr (Some b)
          \<and> b \<noteq> a
          \<and> equipped_item rhs s' = Some x
          \<and> equipped_item this s' = Some x
          \<and> (\<forall>z. \<exists>s''. assign_equipped z this s' = Inr s''
                 \<and> equipped_item this s'' = Some z \<and> equipped_item rhs s'' = Some x)
          \<and> (\<forall>z. \<exists>s''. assign_equipped z rhs s' = Inr s''
                 \<and> equipped_item rhs s'' = Some z \<and> equipped_item this s'' = Some x)
          \<and> (\<exists>s''. Inventory_discardEquipped this s' = Inr s''
                 \<and> equipped_item this s'' = None \<and> equipped_item rhs s'' = Some x)
          \<and> (\<exists>s''. Inventory_discardEquipped rhs s' = Inr s''
                 \<and> equipped_item rhs s'' = None \<and> equipped_item this s'' = Some x)"
proof -
  let ?b = "length (free_store s)"
  have a: "a < ?b"
    using assms(4) by (rule deref_less)
  from assms(5) consider
      (ctor) "copied = Inventory_copy_ctor this rhs s"
    | (assign) t where "copied = Inventory_copy_assign this rhs s"
        "inventories s this = Some t"
        "equipped t = None \<or>
           (\<exists>c y. equipped t = Some c \<and> c \<noteq> a \<and> deref (free_store s) c = Some y)"
    by blast
  then have "\<exists>s' u. copied = Inr s'
          \<and> inventories s' rhs = Some r
          \<and> inventories s' this = Some u \<and> equipped u = Some ?b
          \<and> deref (free_store s') a = Some x
          \<and> deref (free_store s') ?b = Some x"
  proof cases
    case ctor
    then show ?thesis
      using assms(1-4) a
      by (simp add: Inventory_copy_ctor_def duplicate_live deref_new)
  next
    case assign
    from assign(3)
    have "equipped t = None \<or> (\<exists>c y. equipped t = Some c \<and> deref (free_store s) c = Some y)"
      by blast
    from delete_owned [OF this]
    obtain h' where del: "delete_Item (equipped t) (free_store s) = Some h'"
      and len: "length h' = ?b"
      and keep: "\<forall>a. Some a \<noteq> equipped t \<longrightarrow> deref h' a = deref (free_store s) a"
      by blast
    from assign(3) have "Some a \<noteq> equipped t"
      by auto
    with keep assms(4) have x: "deref h' a = Some x"
      by simp
    show ?thesis
      using assms(1-3) a assign(1,2) del len x
      by (simp add: Inventory_copy_assign_def duplicate_live deref_new)
  qed
  then obtain s' u where s': "copied = Inr s'"
    and r: "inventories s' rhs = Some r"
    and u: "inventories s' this = Some u" "equipped u = Some ?b"
    and xa: "deref (free_store s') a = Some x"
    and xb: "deref (free_store s') ?b = Some x"
    by blast
  have ne: "a \<noteq> ?b" "?b \<noteq> a"
    using a by simp_all
  note mine = separate_items [OF assms(1) u xb r assms(3) xa ne(1)]
  note theirs = separate_items [OF assms(1) [symmetric] r assms(3) xa u xb ne(2)]
  have "Inventory_getEquipped rhs s' = Inr (Some a)"
    and "Inventory_getEquipped this s' = Inr (Some ?b)"
    and "equipped_item rhs s' = Some x"
    and "equipped_item this s' = Some x"
    using r u xa xb assms(3) by (simp_all add: Inventory_getEquipped_def equipped_item_def)
  with s' ne(2) mine theirs show ?thesis
    by (intro exI [of _ s'] exI [of _ ?b]) simp
qed

theorem copies_own_their_equipped_item_witness:
  "Obj 1 \<noteq> Obj 0
   \<and> inventories pair (Obj 0) = Some chest
   \<and> equipped chest = Some 0
   \<and> deref (free_store pair) 0 = Some shield
   \<and> inventories pair (Obj 1) = Some pouch
   \<and> equipped pouch = None
   \<and> (\<exists>s' s''. Inventory_copy_assign (Obj 1) (Obj 0) pair = Inr s'
          \<and> equipped_item (Obj 0) s' = Some shield
          \<and> equipped_item (Obj 1) s' = Some shield
          \<and> Inventory_discardEquipped (Obj 0) s' = Inr s''
          \<and> equipped_item (Obj 0) s'' = None
          \<and> equipped_item (Obj 1) s'' = Some shield)"
proof -
  have d: "Obj 1 \<noteq> Obj 0"
    by simp
  have r: "inventories pair (Obj 0) = Some chest"
    by (simp add: pair_def)
  have a: "equipped chest = Some 0"
    by (simp add: chest_def)
  have x: "deref (free_store pair) 0 = Some shield"
    by (simp add: pair_def deref_def)
  have t: "inventories pair (Obj 1) = Some pouch"
    by (simp add: pair_def)
  have e: "equipped pouch = None"
    by (simp add: pouch_def)
  have c: "Inventory_copy_assign (Obj 1) (Obj 0) pair = Inventory_copy_ctor (Obj 1) (Obj 0) pair \<or>
         Inventory_copy_assign (Obj 1) (Obj 0) pair = Inventory_copy_assign (Obj 1) (Obj 0) pair \<and>
         (\<exists>t. inventories pair (Obj 1) = Some t \<and>
            (equipped t = None \<or>
             (\<exists>c y. equipped t = Some c \<and> c \<noteq> 0 \<and> deref (free_store pair) c = Some y)))"
    using t e by blast
  from copies_own_their_equipped_item [OF d r a x c]
  obtain s' s'' where "Inventory_copy_assign (Obj 1) (Obj 0) pair = Inr s'"
    and "equipped_item (Obj 0) s' = Some shield"
    and "equipped_item (Obj 1) s' = Some shield"
    and "Inventory_discardEquipped (Obj 0) s' = Inr s''"
    and "equipped_item (Obj 0) s'' = None"
    and "equipped_item (Obj 1) s'' = Some shield"
    by blast
  with d r a x t e show ?thesis by blast
qed

end
